theory Spec2Isabelle
  imports Main
begin

section \<open>The identity fetch cache of the portal client\<close>

text \<open>
  The development embeds \<^verbatim>\<open>PortalClient._get_with_cache\<close> of \<^verbatim>\<open>client.py\<close>
  (lines 183 to 241). The method receives a fetch function, one identity or a list of
  identities, the flag \<^verbatim>\<open>missing_ok\<close>, an entity type and an optional list of
  field names \<^verbatim>\<open>include\<close>. It reads and writes the client's cache object, calls the
  fetch function, may append to the caller's \<^verbatim>\<open>include\<close> list and may raise.
\<close>

subsection \<open>Values\<close>

text \<open>
  A Python value held in a dictionary or handed back to the caller: an entity of the
  opaque type \<open>'e\<close>, or \<^verbatim>\<open>None\<close>.
\<close>

datatype 'e pyobj = PyNone | Obj 'e

text \<open>
  The argument \<^verbatim>\<open>id\<close> is tested with \<^verbatim>\<open>isinstance(id, list)\<close>: it is a list of
  identities or one identity. The value returned has one of the same two shapes.
\<close>

datatype 'a request = Scalar 'a | Listed "'a list"

text \<open>
  The dictionaries \<^verbatim>\<open>results\<close> and \<^verbatim>\<open>to_cache\<close> returned by the fetch function are
  only looked up, merged and handed on, so they are maps. The dictionary \<^verbatim>\<open>cached\<close> is
  iterated over (\<^verbatim>\<open>for i in cached\<close>), so it is an association list.
\<close>

type_synonym 'e dict = "string \<rightharpoonup> 'e pyobj"

text \<open>
  The payload is \<^verbatim>\<open>{"data": {"ids": ids}}\<close>, with the additional entry
  \<^verbatim>\<open>"meta": {"includes": include}\<close> when a field filter was given.
\<close>

record payload =
  data_ids :: "string list"
  meta_includes :: "string list option"

text \<open>
  What the method raises: the \<^verbatim>\<open>KeyError\<close> of line 233 with the set of missing
  identities that its message prints, the \<^verbatim>\<open>KeyError\<close> of a subscript
  \<^verbatim>\<open>cached[i]\<close> on an absent key (lines 202 and 204), where the key is a string or,
  when \<^verbatim>\<open>id\<close> is a tuple, the tuple of strings, the \<^verbatim>\<open>TypeError\<close> of a lookup
  with a list for the key, which is not hashable, the \<^verbatim>\<open>ValueError\<close> of
  \<^verbatim>\<open>ids.remove(i)\<close> on an absent element (line 197), and whatever the fetch function
  raised, which is not caught.
\<close>

datatype 'x error =
    KeyError_no_objects "string set"
  | KeyError_subscript string
  | KeyError_subscript_tuple "string list"
  | TypeError_unhashable_list
  | ValueError_remove string
  | FetchRaised 'x

subsection \<open>The client, its cache and the calls it makes\<close>

text \<open>
  The calls to the two collaborators are recorded in the order in which the method makes
  them: this is the call counter of an injected cache and fetch function.
\<close>

datatype 'e event =
    CacheGet "string list" string
  | CachePut "'e dict" string
  | RemoteFetch payload

record 'e client =
  cache_store :: "string \<times> string \<rightharpoonup> 'e pyobj"
  calls :: "'e event list"

text \<open>
  Modelled from the spec: the class \<^verbatim>\<open>PortalCache\<close> of \<^verbatim>\<open>cache.py\<close> is not part of
  the sources at hand. The store maps an entity type and an identity to a value, and
  \<^verbatim>\<open>get(ids, kind)\<close> returns the mapping of the requested identities that are present
  and is silent on misses. The dictionary it returns is iterated over by the method, so
  it is an association list, with one entry for each identity found.
\<close>

definition cache_get ::
  "string list \<Rightarrow> string \<Rightarrow> 'e client \<Rightarrow> (string \<times> 'e pyobj) list \<times> 'e client" where
  "cache_get ids entity_type c =
     (List.map_filter (\<lambda>i. map_option (Pair i) (cache_store c (entity_type, i))) (remdups ids),
      c\<lparr>calls := calls c @ [CacheGet ids entity_type]\<rparr>)"

text \<open>
  Modelled from the spec: \<^verbatim>\<open>PortalCache.put\<close> is not part of the sources at hand.
  \<^verbatim>\<open>put(mapping, kind)\<close> inserts every entry of the mapping under the kind and leaves
  the other entries of the store as they are.
\<close>

definition cache_put :: "'e dict \<Rightarrow> string \<Rightarrow> 'e client \<Rightarrow> 'e client" where
  "cache_put d entity_type c =
     c\<lparr>cache_store :=
          (\<lambda>(k, i). if k = entity_type
                    then (case d i of None \<Rightarrow> cache_store c (k, i) | Some v \<Rightarrow> Some v)
                    else cache_store c (k, i)),
       calls := calls c @ [CachePut d entity_type]\<rparr>"

subsection \<open>Helpers of \<^verbatim>\<open>utils.py\<close>\<close>

text \<open>
  Modelled from the spec: \<^verbatim>\<open>make_str\<close> of \<^verbatim>\<open>utils.py\<close> is not part of the sources
  at hand. It normalises every identity to its string form, keeping order, duplicates
  and the scalar or list shape; the conversion \<open>str\<close> of one identity is a parameter.
\<close>

definition make_str :: "('i \<Rightarrow> string) \<Rightarrow> 'i request \<Rightarrow> string request" where
  "make_str str obj = (case obj of Scalar x \<Rightarrow> Scalar (str x) | Listed xs \<Rightarrow> Listed (map str xs))"

text \<open>
  Modelled from the spec: \<^verbatim>\<open>make_list\<close> of \<^verbatim>\<open>utils.py\<close> is not part of the sources
  at hand. It wraps a scalar into a fresh one-element list and copies a list, so that
  removing from \<^verbatim>\<open>ids\<close> leaves \<^verbatim>\<open>str_id\<close> as it was.
\<close>

definition make_list :: "'a request \<Rightarrow> 'a list" where
  "make_list obj = (case obj of Scalar x \<Rightarrow> [x] | Listed xs \<Rightarrow> xs)"

subsection \<open>Python primitives used by the method\<close>

text \<open>
  \<^verbatim>\<open>for i in cached: ids.remove(i)\<close>: \<^verbatim>\<open>list.remove\<close> deletes the first occurrence
  of its argument and raises \<^verbatim>\<open>ValueError\<close> when there is none.
\<close>

fun remove_found :: "string list \<Rightarrow> string list \<Rightarrow> 'x error + string list" where
  "remove_found [] ids = Inr ids"
| "remove_found (i # rest) ids =
     (if i \<in> set ids then remove_found rest (remove1 i ids) else Inl (ValueError_remove i))"

text \<open>\<^verbatim>\<open>d[i]\<close> raises \<^verbatim>\<open>KeyError\<close> on an absent key; \<^verbatim>\<open>d.get(i, None)\<close> does not.\<close>

definition subscript :: "'e dict \<Rightarrow> string \<Rightarrow> 'x error + 'e pyobj" where
  "subscript d i = (case d i of None \<Rightarrow> Inl (KeyError_subscript i) | Some v \<Rightarrow> Inr v)"

fun subscript_all :: "'e dict \<Rightarrow> string list \<Rightarrow> 'x error + 'e pyobj list" where
  "subscript_all d [] = Inr []"
| "subscript_all d (i # rest) =
     (case d i of
        None \<Rightarrow> Inl (KeyError_subscript i)
      | Some v \<Rightarrow> (case subscript_all d rest of Inl e \<Rightarrow> Inl e | Inr vs \<Rightarrow> Inr (v # vs)))"

definition dict_get :: "'e dict \<Rightarrow> string \<Rightarrow> 'e pyobj" where
  "dict_get d i = (case d i of None \<Rightarrow> PyNone | Some v \<Rightarrow> v)"

subsection \<open>The method\<close>

text \<open>
  The value of a call: what it returned or raised, the caller's \<^verbatim>\<open>include\<close> list
  as the call left it, and the client as the call left it.
\<close>

record ('e, 'x) returned =
  outcome :: "'x error + 'e pyobj request"
  include_arg :: "string list option"
  client_after :: "'e client"

text \<open>Lines 212 and 213: \<^verbatim>\<open>if "ids" not in include: include.append("ids")\<close>.\<close>

definition append_ids :: "string list \<Rightarrow> string list" where
  "append_ids inc = (if ''ids'' \<in> set inc then inc else inc @ [''ids''])"

definition get_with_cache ::
  "('i \<Rightarrow> string) \<Rightarrow> (payload \<Rightarrow> 'x + 'e dict \<times> 'e dict) \<Rightarrow> 'i request \<Rightarrow> bool \<Rightarrow> string \<Rightarrow>
   string list option \<Rightarrow> 'e client \<Rightarrow> ('e, 'x) returned" where
  "get_with_cache str func id0 missing_ok entity_type include c =
     (let str_id = make_str str id0;
          ids = make_list str_id;
          (cached, c1) = (case include of
                            None \<Rightarrow> cache_get ids entity_type c
                          | Some _ \<Rightarrow> ([], c))
      in case remove_found (map fst cached) ids of
           Inl e \<Rightarrow> \<lparr>outcome = Inl e, include_arg = include, client_after = c1\<rparr>
         | Inr ids' \<Rightarrow>
             if length ids' = 0 then
               \<lparr>outcome =
                  (case str_id of
                     Listed ss \<Rightarrow> map_sum (\<lambda>e. e) Listed (subscript_all (map_of cached) ss)
                   | Scalar s \<Rightarrow> map_sum (\<lambda>e. e) Scalar (subscript (map_of cached) s)),
                include_arg = include, client_after = c1\<rparr>
             else
               (let include' = map_option append_ids include;
                   payload = \<lparr>data_ids = ids', meta_includes = include'\<rparr>;
                   c2 = c1\<lparr>calls := calls c1 @ [RemoteFetch payload]\<rparr>
               in (case func payload of
                    Inl x \<Rightarrow> \<lparr>outcome = Inl (FetchRaised x), include_arg = include',
                              client_after = c2\<rparr>
                  | Inr (results, to_cache) \<Rightarrow>
                      let c3 = (case include of
                                  None \<Rightarrow> cache_put to_cache entity_type c2
                                | Some _ \<Rightarrow> c2);
                          results' = results ++ map_of cached;
                          missing = set (filter (\<lambda>i. results' i = None) (make_list str_id))
                      in if missing \<noteq> {} \<and> \<not> missing_ok then
                           \<lparr>outcome = Inl (KeyError_no_objects missing),
                            include_arg = include', client_after = c3\<rparr>
                         else
                           \<lparr>outcome =
                              Inr (case str_id of
                                     Listed ss \<Rightarrow> Listed (map (dict_get results') ss)
                                   | Scalar s \<Rightarrow> Scalar (dict_get results' s)),
                            include_arg = include', client_after = c3\<rparr>)))"

subsection \<open>The method on a tuple\<close>

text \<open>
  A tuple of identities is a sequence, but \<^verbatim>\<open>isinstance(id, list)\<close> is false for it:
  lines 204 and 239 run, with the whole of \<^verbatim>\<open>str_id\<close> for the key of one lookup.
  Everything else is as for a list.
\<close>

datatype 'a pyseq = PyTuple "'a list" | PyList "'a list"

text \<open>
  Modelled from the spec: \<^verbatim>\<open>make_str\<close> of \<^verbatim>\<open>utils.py\<close> is not part of the sources
  at hand. It normalises every identity to its string form and keeps order and
  duplicates; whether the strings of a tuple come back as a tuple or as a list is not
  said, so both are modelled and \<open>as_tuple\<close> selects.
\<close>

definition make_str_tuple :: "bool \<Rightarrow> ('i \<Rightarrow> string) \<Rightarrow> 'i list \<Rightarrow> string pyseq" where
  "make_str_tuple as_tuple str obj =
     (if as_tuple then PyTuple (map str obj) else PyList (map str obj))"

text \<open>
  Modelled from the spec: \<^verbatim>\<open>make_list\<close> of \<^verbatim>\<open>utils.py\<close> is not part of the sources
  at hand. On a tuple and on a list it returns a new list of the elements.
\<close>

fun make_list_seq :: "'a pyseq \<Rightarrow> 'a list" where
  "make_list_seq (PyTuple xs) = xs"
| "make_list_seq (PyList xs) = xs"

text \<open>
  \<^verbatim>\<open>cached[str_id]\<close> and \<^verbatim>\<open>results.get(str_id, None)\<close> with a sequence for the key.
  Both dictionaries are keyed by strings. A tuple of strings is hashable and is not a key:
  the subscript raises \<^verbatim>\<open>KeyError\<close> and \<^verbatim>\<open>get\<close> gives the default. A list is not
  hashable: both raise \<^verbatim>\<open>TypeError\<close>.
\<close>

fun subscript_seq :: "string pyseq \<Rightarrow> 'x error" where
  "subscript_seq (PyTuple ss) = KeyError_subscript_tuple ss"
| "subscript_seq (PyList ss) = TypeError_unhashable_list"

fun dict_get_seq :: "string pyseq \<Rightarrow> 'x error + 'e pyobj" where
  "dict_get_seq (PyTuple ss) = Inr PyNone"
| "dict_get_seq (PyList ss) = Inl TypeError_unhashable_list"

definition get_with_cache_tuple ::
  "bool \<Rightarrow> ('i \<Rightarrow> string) \<Rightarrow> (payload \<Rightarrow> 'x + 'e dict \<times> 'e dict) \<Rightarrow> 'i list \<Rightarrow> bool \<Rightarrow>
   string \<Rightarrow> string list option \<Rightarrow> 'e client \<Rightarrow> ('e, 'x) returned" where
  "get_with_cache_tuple as_tuple str func id0 missing_ok entity_type include c =
     (let str_id = make_str_tuple as_tuple str id0;
          ids = make_list_seq str_id;
          (cached, c1) = (case include of
                            None \<Rightarrow> cache_get ids entity_type c
                          | Some _ \<Rightarrow> ([], c))
      in case remove_found (map fst cached) ids of
           Inl e \<Rightarrow> \<lparr>outcome = Inl e, include_arg = include, client_after = c1\<rparr>
         | Inr ids' \<Rightarrow>
             if length ids' = 0 then
               \<lparr>outcome = Inl (subscript_seq str_id),
                include_arg = include, client_after = c1\<rparr>
             else
               (let include' = map_option append_ids include;
                   payload = \<lparr>data_ids = ids', meta_includes = include'\<rparr>;
                   c2 = c1\<lparr>calls := calls c1 @ [RemoteFetch payload]\<rparr>
               in (case func payload of
                    Inl x \<Rightarrow> \<lparr>outcome = Inl (FetchRaised x), include_arg = include',
                              client_after = c2\<rparr>
                  | Inr (results, to_cache) \<Rightarrow>
                      let c3 = (case include of
                                  None \<Rightarrow> cache_put to_cache entity_type c2
                                | Some _ \<Rightarrow> c2);
                          results' = results ++ map_of cached;
                          missing = set (filter (\<lambda>i. results' i = None) (make_list_seq str_id))
                      in if missing \<noteq> {} \<and> \<not> missing_ok then
                           \<lparr>outcome = Inl (KeyError_no_objects missing),
                            include_arg = include', client_after = c3\<rparr>
                         else
                           \<lparr>outcome = (case dict_get_seq str_id of
                                         Inl e \<Rightarrow> Inl e
                                       | Inr v \<Rightarrow> Inr (Scalar v)),
                            include_arg = include', client_after = c3\<rparr>)))"

subsection \<open>What a call looks up, leaves to fetch and sends\<close>

text \<open>
  The notions in which the properties of the method are stated; the lemma
  \<open>get_with_cache_char\<close> below ties them to the method. \<open>requested\<close> is the
  normalised list of identities of a call; \<open>served\<close> is what the cache pass of lines
  191 to 194 finds for an identity (nothing under a field filter); \<open>not_found\<close> is the
  list \<^verbatim>\<open>ids\<close> after the loop of lines 196 and 197; \<open>fetch_payload\<close> is the payload
  of lines 207 to 218; \<open>fetches\<close> reads the payloads of the fetches off the calls made.
\<close>

definition requested :: "('i \<Rightarrow> string) \<Rightarrow> 'i request \<Rightarrow> string list" where
  "requested str id0 = make_list (make_str str id0)"

definition served :: "string list option \<Rightarrow> string \<Rightarrow> 'e client \<Rightarrow> 'e dict" where
  "served include entity_type c i =
     (case include of None \<Rightarrow> cache_store c (entity_type, i) | Some _ \<Rightarrow> None)"

definition not_found :: "string list option \<Rightarrow> string \<Rightarrow> 'e client \<Rightarrow> string list \<Rightarrow> string list" where
  "not_found include entity_type c ids =
     fold remove1 (filter (\<lambda>i. served include entity_type c i \<noteq> None) (remdups ids)) ids"

definition fetch_payload :: "string list option \<Rightarrow> string \<Rightarrow> 'e client \<Rightarrow> string list \<Rightarrow> payload" where
  "fetch_payload include entity_type c ids =
     \<lparr>data_ids = not_found include entity_type c ids, meta_includes = map_option append_ids include\<rparr>"

fun fetches :: "'e event list \<Rightarrow> payload list" where
  "fetches [] = []"
| "fetches (RemoteFetch p # es) = p # fetches es"
| "fetches (CacheGet ids k # es) = fetches es"
| "fetches (CachePut d k # es) = fetches es"

definition after_lookup :: "string list option \<Rightarrow> string \<Rightarrow> string list \<Rightarrow> 'e client \<Rightarrow> 'e client" where
  "after_lookup include entity_type ids c =
     (case include of None \<Rightarrow> c\<lparr>calls := calls c @ [CacheGet ids entity_type]\<rparr> | Some _ \<Rightarrow> c)"

definition cached_of :: "string list option \<Rightarrow> string \<Rightarrow> string list \<Rightarrow> 'e client \<Rightarrow> 'e dict" where
  "cached_of include entity_type ids c = (\<lambda>i. if i \<in> set ids then served include entity_type c i else None)"

text \<open>
  The value a call hands back for one identity: the cached value when the cache served
  the identity, otherwise what the fetch function returned for it, otherwise
  \<^verbatim>\<open>None\<close>. The identities left without a value are the unresolved ones.
\<close>

definition answer ::
  "(payload \<Rightarrow> 'x + 'e dict \<times> 'e dict) \<Rightarrow> string list option \<Rightarrow> string \<Rightarrow> 'e client \<Rightarrow>
   string list \<Rightarrow> string \<Rightarrow> 'e pyobj" where
  "answer func include entity_type c ids i =
     (case served include entity_type c i of
        Some v \<Rightarrow> v
      | None \<Rightarrow>
          (case func (fetch_payload include entity_type c ids) of
             Inl _ \<Rightarrow> PyNone
           | Inr (results, _) \<Rightarrow> dict_get results i))"

definition answers ::
  "('i \<Rightarrow> string) \<Rightarrow> (payload \<Rightarrow> 'x + 'e dict \<times> 'e dict) \<Rightarrow> 'i request \<Rightarrow> string \<Rightarrow>
   string list option \<Rightarrow> 'e client \<Rightarrow> 'e pyobj request" where
  "answers str func id0 entity_type include c =
     (case id0 of
        Scalar x \<Rightarrow> Scalar (answer func include entity_type c (requested str id0) (str x))
      | Listed xs \<Rightarrow>
          Listed (map (\<lambda>x. answer func include entity_type c (requested str id0) (str x)) xs))"

definition unresolved ::
  "'e dict \<Rightarrow> string list option \<Rightarrow> string \<Rightarrow> 'e client \<Rightarrow> string list \<Rightarrow> string set" where
  "unresolved results include entity_type c ids =
     set (filter (\<lambda>i. served include entity_type c i = None \<and> results i = None) ids)"

subsection \<open>An example client and remote source\<close>

text \<open>
  A remote source that knows the identities 1, 2 and 3, one that always fails, one that
  reports every identity it is asked for as absent, with the value \<^verbatim>\<open>None\<close>, and two
  clients: one with an empty cache and one whose cache holds molecule 1.
\<close>

definition example_remote :: "payload \<Rightarrow> string + nat dict \<times> nat dict" where
  "example_remote p =
     (let found = map_of [(''1'', Obj 10), (''2'', Obj 20), (''3'', Obj 30)] |` set (data_ids p)
      in Inr (found, found))"

definition failing_remote :: "payload \<Rightarrow> string + nat dict \<times> nat dict" where
  "failing_remote p = Inl ''connection refused''"

definition absent_remote :: "payload \<Rightarrow> string + nat dict \<times> nat dict" where
  "absent_remote p = Inr (\<lambda>i. if i \<in> set (data_ids p) then Some PyNone else None, Map.empty)"

definition empty_client :: "nat client" where
  "empty_client = \<lparr>cache_store = Map.empty, calls = []\<rparr>"

definition example_client :: "nat client" where
  "example_client = \<lparr>cache_store = [(''molecule'', ''1'') \<mapsto> Obj 10], calls = []\<rparr>"

section \<open>Properties\<close>

subsection \<open>The cache pass\<close>

lemma fetches_append: "fetches (es @ fs) = fetches es @ fetches fs"
  by (induction es rule: fetches.induct) simp_all

lemma remove_found_fold:
  "distinct ks \<Longrightarrow> set ks \<subseteq> set ids \<Longrightarrow> remove_found ks ids = Inr (fold remove1 ks ids)"
proof (induction ks arbitrary: ids)
  case Nil
  show ?case by simp
next
  case (Cons k ks)
  have "set ks \<subseteq> set (remove1 k ids)"
  proof
    fix j assume j: "j \<in> set ks"
    with Cons.prems have "j \<noteq> k" "j \<in> set ids" by auto
    then show "j \<in> set (remove1 k ids)" by simp
  qed
  with Cons show ?case by simp
qed

lemma length_fold_remove1:
  "distinct ks \<Longrightarrow> set ks \<subseteq> set ids \<Longrightarrow> length (fold remove1 ks ids) = length ids - length ks"
proof (induction ks arbitrary: ids)
  case Nil
  show ?case by simp
next
  case (Cons k ks)
  have "set ks \<subseteq> set (remove1 k ids)"
  proof
    fix j assume j: "j \<in> set ks"
    with Cons.prems have "j \<noteq> k" "j \<in> set ids" by auto
    then show "j \<in> set (remove1 k ids)" by simp
  qed
  with Cons show ?case by (simp add: length_remove1)
qed

lemma filter_fold_remove1:
  "\<forall>k \<in> set ks. \<not> Q k \<Longrightarrow> filter Q (fold remove1 ks ids) = filter Q ids"
  by (induction ks arbitrary: ids) (simp_all add: filter_remove1)

lemma cache_get_keys:
  "map fst (fst (cache_get ids k c)) = filter (\<lambda>i. cache_store c (k, i) \<noteq> None) (remdups ids)"
proof -
  have "map fst (List.map_filter (\<lambda>i. map_option (Pair i) (f i)) xs) = filter (\<lambda>i. f i \<noteq> None) xs"
    for f :: "string \<Rightarrow> 'a pyobj option" and xs
    by (induction xs) (auto simp: List.map_filter_simps split: option.splits)
  then show ?thesis by (simp add: cache_get_def)
qed

lemma cache_get_map_of:
  "map_of (fst (cache_get ids k c)) i = (if i \<in> set ids then cache_store c (k, i) else None)"
proof -
  have "map_of (List.map_filter (\<lambda>i. map_option (Pair i) (f i)) xs) i = (if i \<in> set xs then f i else None)"
    for f :: "string \<Rightarrow> 'a pyobj option" and xs
    by (induction xs) (auto simp: List.map_filter_simps split: option.splits)
  from this [of _ "remdups ids"] show ?thesis by (simp add: cache_get_def)
qed

lemma cache_get_client: "snd (cache_get ids k c) = c\<lparr>calls := calls c @ [CacheGet ids k]\<rparr>"
  by (simp add: cache_get_def)

lemma remove_found_not_found:
  "remove_found (filter (\<lambda>i. served inc k c i \<noteq> None) (remdups ids)) ids = Inr (not_found inc k c ids)"
  unfolding not_found_def by (rule remove_found_fold) auto

lemma get_with_cache_char:
  "get_with_cache str func id0 missing_ok k inc c =
     (let str_id = make_str str id0;
          ids = make_list str_id;
          cached = cached_of inc k ids c;
          c1 = after_lookup inc k ids c
      in if not_found inc k c ids = [] then
           \<lparr>outcome =
              (case str_id of
                 Listed ss \<Rightarrow> map_sum (\<lambda>e. e) Listed (subscript_all cached ss)
               | Scalar s \<Rightarrow> map_sum (\<lambda>e. e) Scalar (subscript cached s)),
            include_arg = inc, client_after = c1\<rparr>
         else
           (let payload = fetch_payload inc k c ids;
                c2 = c1\<lparr>calls := calls c1 @ [RemoteFetch payload]\<rparr>
            in (case func payload of
                  Inl x \<Rightarrow> \<lparr>outcome = Inl (FetchRaised x), include_arg = map_option append_ids inc,
                            client_after = c2\<rparr>
                | Inr (results, to_cache) \<Rightarrow>
                    let c3 = (case inc of None \<Rightarrow> cache_put to_cache k c2 | Some _ \<Rightarrow> c2);
                        results' = results ++ cached;
                        missing = set (filter (\<lambda>i. results' i = None) ids)
                    in if missing \<noteq> {} \<and> \<not> missing_ok then
                         \<lparr>outcome = Inl (KeyError_no_objects missing),
                          include_arg = map_option append_ids inc, client_after = c3\<rparr>
                       else
                         \<lparr>outcome =
                            Inr (case str_id of
                                   Listed ss \<Rightarrow> Listed (map (dict_get results') ss)
                                 | Scalar s \<Rightarrow> Scalar (dict_get results' s)),
                          include_arg = map_option append_ids inc, client_after = c3\<rparr>)))"
proof (cases inc)
  case None
  let ?ids = "make_list (make_str str id0)"
  obtain cached c1 where cg: "cache_get ?ids k c = (cached, c1)"
    by (cases "cache_get ?ids k c")
  have keys: "map fst cached = filter (\<lambda>i. served None k c i \<noteq> None) (remdups ?ids)"
    using cache_get_keys [of ?ids k c] cg by (simp add: served_def)
  have mo: "map_of cached = cached_of None k ?ids c"
    using cache_get_map_of [of ?ids k c] cg
    by (auto simp: cached_of_def served_def fun_eq_iff)
  have c1: "c1 = after_lookup None k ?ids c"
    using cache_get_client [of ?ids k c] cg
    by (simp add: after_lookup_def)
  show ?thesis
    unfolding None get_with_cache_def Let_def
    apply (simp only: option.case cg prod.case keys remove_found_not_found sum.case mo c1)
    apply (simp add: fetch_payload_def cong: sum.case_cong if_cong)
    done
next
  case (Some a)
  have nf: "not_found (Some a) k c ids = ids" for ids
    by (simp add: not_found_def served_def)
  have co: "cached_of (Some a) k ids c = Map.empty" for ids
    by (simp add: cached_of_def served_def fun_eq_iff)
  show ?thesis
    unfolding Some get_with_cache_def Let_def
    by (simp add: nf co after_lookup_def fetch_payload_def
        cong: sum.case_cong if_cong request.case_cong prod.case_cong)
qed

lemma length_filter_eq_iff: "length (filter P xs) = length xs \<longleftrightarrow> (\<forall>x \<in> set xs. P x)"
  by (metis filter_id_conv length_filter_le list.size(3) filter_True sum_length_filter_compl add_cancel_right_right length_0_conv filter_empty_conv)

lemma not_found_empty_iff:
  "not_found inc k c ids = [] \<longleftrightarrow> distinct ids \<and> (\<forall>i \<in> set ids. served inc k c i \<noteq> None)"
proof -
  let ?P = "\<lambda>i. served inc k c i \<noteq> None"
  let ?ks = "filter ?P (remdups ids)"
  have len: "length (not_found inc k c ids) = length ids - length ?ks"
    unfolding not_found_def by (rule length_fold_remove1) auto
  have le1: "length ?ks \<le> length (remdups ids)" by simp
  have le2: "length (remdups ids) \<le> length ids" by (rule length_remdups_leq)
  show ?thesis
  proof
    assume "not_found inc k c ids = []"
    then have "length (not_found inc k c ids) = 0" by simp
    with len have "length ids - length ?ks = 0" by (simp only:)
    with le1 le2 have e1: "length ?ks = length (remdups ids)" and e2: "length (remdups ids) = length ids"
      by linarith+
    from e2 have "distinct ids" by (metis distinct_remdups length_remdups_eq remdups_id_iff_distinct)
    moreover from e1 have "\<forall>i \<in> set (remdups ids). ?P i" by (simp only: length_filter_eq_iff)
    ultimately show "distinct ids \<and> (\<forall>i \<in> set ids. ?P i)" by simp
  next
    assume a: "distinct ids \<and> (\<forall>i \<in> set ids. ?P i)"
    then have "?ks = ids" by (simp add: distinct_remdups_id)
    with len show "not_found inc k c ids = []" by simp
  qed
qed

lemma filter_not_found:
  "filter (\<lambda>i. served inc k c i = None) (not_found inc k c ids) = filter (\<lambda>i. served inc k c i = None) ids"
  unfolding not_found_def by (rule filter_fold_remove1) simp

lemma set_not_found: "set (not_found inc k c ids) \<subseteq> set ids"
proof -
  have "set (fold remove1 ks xs) \<subseteq> set xs" for ks xs :: "string list"
  proof (induction ks arbitrary: xs)
    case Nil show ?case by simp
  next
    case (Cons a ks)
    have "set (fold remove1 ks (remove1 a xs)) \<subseteq> set (remove1 a xs)" by (rule Cons.IH)
    also have "\<dots> \<subseteq> set xs" by (rule set_remove1_subset)
    finally show ?case by simp
  qed
  then show ?thesis by (simp add: not_found_def)
qed

lemma subscript_all_present:
  "\<forall>i \<in> set ss. d i \<noteq> None \<Longrightarrow> subscript_all d ss = Inr (map (dict_get d) ss)"
  by (induction ss) (auto simp: dict_get_def)

subsection \<open>What a call returns\<close>

lemma merged_None:
  "i \<in> set ids \<Longrightarrow> (results ++ cached_of inc k ids c) i = None \<longleftrightarrow> served inc k c i = None \<and> results i = None"
  by (auto simp: cached_of_def map_add_def split: option.splits)

lemma missing_unresolved:
  "set (filter (\<lambda>i. (results ++ cached_of inc k ids c) i = None) ids) = unresolved results inc k c ids"
proof -
  have "filter (\<lambda>i. (results ++ cached_of inc k ids c) i = None) ids
      = filter (\<lambda>i. served inc k c i = None \<and> results i = None) ids"
    by (rule filter_cong) (auto simp: cached_of_def map_add_def split: option.splits)
  then show ?thesis by (simp only: unresolved_def)
qed

lemma dict_get_merged:
  assumes "func (fetch_payload inc k c ids) = Inr (results, tc)" "i \<in> set ids"
  shows "dict_get (results ++ cached_of inc k ids c) i = answer func inc k c ids i"
  using assms by (auto simp: dict_get_def answer_def cached_of_def map_add_def split: option.splits)

lemma dict_get_cached:
  assumes "i \<in> set ids" "served inc k c i \<noteq> None"
  shows "dict_get (cached_of inc k ids c) i = answer func inc k c ids i"
  using assms by (auto simp: dict_get_def answer_def cached_of_def split: option.splits)

lemma full_hit_outcome:
  assumes "not_found inc k c (requested str id0) = []"
  shows "(case make_str str id0 of
            Listed ss \<Rightarrow> map_sum (\<lambda>e. e) Listed (subscript_all (cached_of inc k (requested str id0) c) ss)
          | Scalar s \<Rightarrow> map_sum (\<lambda>e. e) Scalar (subscript (cached_of inc k (requested str id0) c) s))
         = (Inr (answers str func id0 k inc c) :: 'x error + 'e pyobj request)"
proof -
  let ?ids = "requested str id0"
  from assms have all: "\<forall>i \<in> set ?ids. served inc k c i \<noteq> None"
    by (simp add: not_found_empty_iff)
  then have pres: "\<forall>i \<in> set ?ids. cached_of inc k ?ids c i \<noteq> None"
    by (simp add: cached_of_def)
  show ?thesis
  proof (cases id0)
    case (Scalar x)
    then have ids: "?ids = [str x]" by (simp add: requested_def make_str_def make_list_def)
    from pres ids obtain v where v: "cached_of inc k ?ids c (str x) = Some v" by auto
    have "dict_get (cached_of inc k ?ids c) (str x) = answer func inc k c ?ids (str x)"
      by (rule dict_get_cached) (use all ids in auto)
    with v show ?thesis
      by (simp add: Scalar make_str_def subscript_def answers_def dict_get_def)
  next
    case (Listed xs)
    then have ids: "?ids = map str xs" by (simp add: requested_def make_str_def make_list_def)
    have "subscript_all (cached_of inc k ?ids c) (map str xs)
        = (Inr (map (dict_get (cached_of inc k ?ids c)) (map str xs)) :: 'x error + 'e pyobj list)"
      by (rule subscript_all_present) (use pres ids in simp)
    also have "map (dict_get (cached_of inc k ?ids c)) (map str xs)
        = map (\<lambda>x. answer func inc k c ?ids (str x)) xs"
      using all ids by (auto intro!: dict_get_cached)
    finally have "subscript_all (cached_of inc k ?ids c) (map str xs)
        = (Inr (map (\<lambda>x. answer func inc k c ?ids (str x)) xs) :: 'x error + 'e pyobj list)" .
    then show ?thesis
      by (simp add: Listed make_str_def answers_def)
  qed
qed

lemma fetched_outcome:
  assumes "func (fetch_payload inc k c (requested str id0)) = Inr (results, tc)"
  shows "(case make_str str id0 of
            Listed ss \<Rightarrow> Listed (map (dict_get (results ++ cached_of inc k (requested str id0) c)) ss)
          | Scalar s \<Rightarrow> Scalar (dict_get (results ++ cached_of inc k (requested str id0) c) s))
         = answers str func id0 k inc c"
proof (cases id0)
  case (Scalar x)
  then have ids: "requested str id0 = [str x]" by (simp add: requested_def make_str_def make_list_def)
  show ?thesis using dict_get_merged [where func = func and i = "str x", OF assms] ids
    by (simp add: Scalar make_str_def answers_def)
next
  case (Listed xs)
  then have ids: "requested str id0 = map str xs" by (simp add: requested_def make_str_def make_list_def)
  show ?thesis using dict_get_merged [where func = func, OF assms] ids
    by (simp add: Listed make_str_def answers_def)
qed

lemmas get_with_cache_char' = get_with_cache_char [unfolded Let_def, folded requested_def]

lemma outcome_get_with_cache:
  "outcome (get_with_cache str func id0 missing_ok k inc c) =
     (if not_found inc k c (requested str id0) = [] then Inr (answers str func id0 k inc c)
      else (case func (fetch_payload inc k c (requested str id0)) of
              Inl x \<Rightarrow> Inl (FetchRaised x)
            | Inr (results, to_cache) \<Rightarrow>
                if unresolved results inc k c (requested str id0) \<noteq> {} \<and> \<not> missing_ok
                then Inl (KeyError_no_objects (unresolved results inc k c (requested str id0)))
                else Inr (answers str func id0 k inc c)))"
proof (cases "not_found inc k c (requested str id0) = []")
  case True
  then show ?thesis
    using full_hit_outcome [OF True, of func]
    by (simp add: get_with_cache_char')
next
  case False
  show ?thesis
  proof (cases "func (fetch_payload inc k c (requested str id0))")
    case (Inl x)
    with False show ?thesis
      by (simp add: get_with_cache_char')
  next
    case (Inr p)
    obtain results tc where p: "p = (results, tc)" by (cases p)
    note f = Inr [unfolded p]
    show ?thesis
      unfolding get_with_cache_char'
      apply (simp only: False if_False f sum.case prod.case missing_unresolved
          fetched_outcome [where func = func, OF f])
      apply simp
      done
  qed
qed

text \<open>
  With the cache as specified, the subscripts of lines 202 and 204 and the
  \<^verbatim>\<open>remove\<close> of line 197 never raise: a call raises only what the fetch function
  raised, or the \<^verbatim>\<open>KeyError\<close> of line 233.
\<close>

lemma get_with_cache_raises:
  assumes "outcome (get_with_cache str func id0 missing_ok k inc c) = Inl e"
  shows "(\<exists>x. e = FetchRaised x) \<or> (\<exists>M. e = KeyError_no_objects M)"
  using assms by (auto simp: outcome_get_with_cache split: if_splits sum.splits)

subsection \<open>What a call leaves behind\<close>

lemma calls_cache_put: "calls (cache_put d k c) = calls c @ [CachePut d k]"
  by (simp add: cache_put_def)

lemma store_cache_put_calls: "cache_store (cache_put d k (c\<lparr>calls := cs\<rparr>)) = cache_store (cache_put d k c)"
  by (simp add: cache_put_def fun_eq_iff split: option.splits)

lemma store_cache_put:
  "cache_store (cache_put d k c) (k', i) =
     (if k' = k then (case d i of None \<Rightarrow> cache_store c (k', i) | Some v \<Rightarrow> Some v)
      else cache_store c (k', i))"
  by (simp add: cache_put_def)

lemma calls_get_with_cache:
  "calls (client_after (get_with_cache str func id0 missing_ok k inc c)) =
     calls c @
     (case inc of None \<Rightarrow> [CacheGet (requested str id0) k] | Some _ \<Rightarrow> []) @
     (if not_found inc k c (requested str id0) = [] then []
      else RemoteFetch (fetch_payload inc k c (requested str id0)) #
           (case func (fetch_payload inc k c (requested str id0)) of
              Inl _ \<Rightarrow> []
            | Inr (results, to_cache) \<Rightarrow>
                (case inc of None \<Rightarrow> [CachePut to_cache k] | Some _ \<Rightarrow> [])))"
proof (cases "not_found inc k c (requested str id0) = []")
  case True
  then show ?thesis
    by (simp add: get_with_cache_char' after_lookup_def split: option.splits)
next
  case False
  show ?thesis
  proof (cases "func (fetch_payload inc k c (requested str id0))")
    case (Inl x)
    with False show ?thesis
      by (simp add: get_with_cache_char' after_lookup_def split: option.splits)
  next
    case (Inr p)
    obtain results tc where p: "p = (results, tc)" by (cases p)
    note f = Inr [unfolded p]
    show ?thesis
      unfolding get_with_cache_char'
      apply (simp only: False if_False f sum.case prod.case)
      apply (simp add: after_lookup_def calls_cache_put store_cache_put_calls split: option.splits)
      done
  qed
qed

lemma store_get_with_cache:
  "cache_store (client_after (get_with_cache str func id0 missing_ok k inc c)) =
     (if not_found inc k c (requested str id0) = [] then cache_store c
      else (case func (fetch_payload inc k c (requested str id0)) of
              Inl _ \<Rightarrow> cache_store c
            | Inr (results, to_cache) \<Rightarrow>
                (case inc of None \<Rightarrow> cache_store (cache_put to_cache k c) | Some _ \<Rightarrow> cache_store c)))"
proof (cases "not_found inc k c (requested str id0) = []")
  case True
  then show ?thesis
    by (simp add: get_with_cache_char' after_lookup_def split: option.splits)
next
  case False
  show ?thesis
  proof (cases "func (fetch_payload inc k c (requested str id0))")
    case (Inl x)
    with False show ?thesis
      by (simp add: get_with_cache_char' after_lookup_def split: option.splits)
  next
    case (Inr p)
    obtain results tc where p: "p = (results, tc)" by (cases p)
    note f = Inr [unfolded p]
    show ?thesis
      unfolding get_with_cache_char'
      apply (simp only: False if_False f sum.case prod.case)
      apply (simp add: after_lookup_def calls_cache_put store_cache_put_calls split: option.splits)
      done
  qed
qed

lemma include_get_with_cache:
  "include_arg (get_with_cache str func id0 missing_ok k inc c) =
     (if not_found inc k c (requested str id0) = [] then inc else map_option append_ids inc)"
proof (cases "not_found inc k c (requested str id0) = []")
  case True
  then show ?thesis by (simp add: get_with_cache_char')
next
  case False
  show ?thesis
  proof (cases "func (fetch_payload inc k c (requested str id0))")
    case (Inl x)
    with False show ?thesis by (simp add: get_with_cache_char')
  next
    case (Inr p)
    obtain results tc where p: "p = (results, tc)" by (cases p)
    note f = Inr [unfolded p]
    show ?thesis
      unfolding get_with_cache_char'
      apply (simp only: False if_False f sum.case prod.case)
      apply simp
      done
  qed
qed

lemma fetches_get_with_cache:
  "fetches (calls (client_after (get_with_cache str func id0 missing_ok k inc c))) =
     fetches (calls c) @
     (if not_found inc k c (requested str id0) = [] then []
      else [fetch_payload inc k c (requested str id0)])"
  by (simp add: calls_get_with_cache fetches_append split: option.splits sum.splits)

subsection \<open>Unresolved identities and the shape of a request\<close>

lemma answer_unresolved:
  assumes "func (fetch_payload inc k c ids) = Inr (results, tc)"
      and "i \<in> unresolved results inc k c ids"
  shows "answer func inc k c ids i = PyNone"
  using assms by (simp add: answer_def unresolved_def dict_get_def)

lemma unresolved_not_found:
  assumes "unresolved results inc k c ids \<noteq> {}"
  shows "not_found inc k c ids \<noteq> []"
proof -
  from assms obtain i where "i \<in> set ids" "served inc k c i = None"
    by (auto simp: unresolved_def)
  then show ?thesis by (auto simp: not_found_empty_iff)
qed

lemma requested_Scalar: "requested str (Scalar x) = [str x]"
  by (simp add: requested_def make_str_def make_list_def)

lemma requested_Listed: "requested str (Listed xs) = map str xs"
  by (simp add: requested_def make_str_def make_list_def)

subsection \<open>Calls with a field filter\<close>

lemma not_found_filter: "not_found (Some inc) k c ids = ids"
  by (simp add: not_found_def served_def)

lemma fetch_payload_filter:
  "fetch_payload (Some inc) k c ids = \<lparr>data_ids = ids, meta_includes = Some (append_ids inc)\<rparr>"
  by (simp add: fetch_payload_def not_found_filter)

subsection \<open>Identities served from the cache\<close>

lemma answer_served:
  "served inc k c i \<noteq> None \<Longrightarrow> answer func inc k c ids i = dict_get (served inc k c) i"
  by (auto simp: answer_def dict_get_def)

lemma answers_served:
  assumes "\<forall>i \<in> set (requested str id0). served inc k c i \<noteq> None"
  shows "answers str func id0 k inc c = map_request (\<lambda>x. dict_get (served inc k c) (str x)) id0"
proof (cases id0)
  case (Scalar x)
  with assms show ?thesis by (simp add: answers_def requested_Scalar answer_served)
next
  case (Listed xs)
  with assms show ?thesis by (simp add: answers_def requested_Listed answer_served)
qed

subsection \<open>The shape of the result\<close>

text \<open>Unfolding the method on a concrete call.\<close>

lemmas run_simps =
  get_with_cache_def make_str_def make_list_def cache_get_def cache_put_def List.map_filter_def
  dict_get_def subscript_def append_ids_def Let_def example_remote_def failing_remote_def
  absent_remote_def get_with_cache_tuple_def make_str_tuple_def
  empty_client_def example_client_def restrict_map_def map_add_def

text \<open>
  For one identity and for a list of identities the shape of the input is the shape of
  the output: a call with one identity that returns hands back one value, an entity or
  \<^verbatim>\<open>None\<close>, and a call with a list, also a list of one, hands back a list of the same
  length.
\<close>

lemma get_with_cache_shape:
  assumes "outcome (get_with_cache str func id0 missing_ok entity_type include c) = Inr out"
  shows "(case id0 of
            Scalar x \<Rightarrow> (\<exists>v. out = Scalar v)
          | Listed xs \<Rightarrow> (\<exists>vs. out = Listed vs \<and> length vs = length xs))"
proof -
  from assms have "out = answers str func id0 entity_type include c"
    by (auto simp: outcome_get_with_cache split: if_splits sum.splits)
  then show ?thesis by (simp add: answers_def split: request.splits)
qed

lemma get_with_cache_shape_example:
  "outcome (get_with_cache (\<lambda>s. s) example_remote (Scalar ''5'') True ''molecule'' None example_client)
     = Inr (Scalar PyNone)
   \<and> outcome (get_with_cache (\<lambda>s. s) example_remote (Listed [''5'']) True ''molecule'' None example_client)
     = Inr (Listed [PyNone])
   \<and> (\<exists>v. (Scalar PyNone :: nat pyobj request) = Scalar v)
   \<and> (\<exists>vs. (Listed [PyNone] :: nat pyobj request) = Listed vs \<and> length vs = length [''5''])"
proof -
  have h1: "outcome (get_with_cache (\<lambda>s. s) example_remote (Scalar ''5'') True ''molecule'' None example_client)
     = Inr (Scalar PyNone)"
    by (simp add: run_simps)
  have h2: "outcome (get_with_cache (\<lambda>s. s) example_remote (Listed [''5'']) True ''molecule'' None example_client)
     = Inr (Listed [PyNone])"
    by (simp add: run_simps)
  show ?thesis using h1 h2 get_with_cache_shape [OF h1] get_with_cache_shape [OF h2] by simp
qed

text \<open>
  A call with a tuple makes the same calls and leaves the same client and field filter
  behind as the call with the list of the same identities. It never returns a sequence:
  it returns only when \<^verbatim>\<open>make_str\<close> keeps the tuple, and then hands back the single
  value \<^verbatim>\<open>None\<close>, whatever was found.
\<close>

lemma get_with_cache_tuple_effects:
  fixes func :: "payload \<Rightarrow> 'x + 'e dict \<times> 'e dict"
  shows "client_after (get_with_cache_tuple as_tuple str func xs missing_ok k inc c)
     = client_after (get_with_cache str func (Listed xs) missing_ok k inc c)
   \<and> include_arg (get_with_cache_tuple as_tuple str func xs missing_ok k inc c)
     = include_arg (get_with_cache str func (Listed xs) missing_ok k inc c)"
proof -
  note defs = get_with_cache_tuple_def get_with_cache_def make_str_def make_list_def
    request.case Let_def
  have ms: "make_list_seq (make_str_tuple as_tuple str xs) = map str xs"
    by (simp add: make_str_tuple_def)
  obtain cached c1
    where cg: "(case inc of None \<Rightarrow> cache_get (map str xs) k c | Some _ \<Rightarrow> ([], c)) = (cached, c1)"
    by (cases "case inc of None \<Rightarrow> cache_get (map str xs) k c | Some _ \<Rightarrow> ([], c)")
  show ?thesis
  proof (cases "remove_found (map fst cached) (map str xs) :: 'x error + string list")
    case (Inl e)
    then show ?thesis unfolding defs ms by (simp add: cg)
  next
    case (Inr ids')
    show ?thesis
    proof (cases "ids' = []")
      case True
      with Inr show ?thesis unfolding defs ms by (simp add: cg)
    next
      case False
      show ?thesis
      proof (cases "func \<lparr>data_ids = ids', meta_includes = map_option append_ids inc\<rparr>")
        case (Inl x)
        with Inr False show ?thesis unfolding defs ms by (simp add: cg)
      next
        case p: (Inr p)
        obtain results tc where "p = (results, tc)" by (cases p)
        with p Inr False show ?thesis unfolding defs ms by (simp add: cg)
      qed
    qed
  qed
qed

lemma get_with_cache_tuple_returns:
  fixes func :: "payload \<Rightarrow> 'x + 'e dict \<times> 'e dict"
  assumes "outcome (get_with_cache_tuple as_tuple str func xs missing_ok k inc c) = Inr out"
  shows "as_tuple \<and> out = Scalar PyNone"
proof -
  note defs = get_with_cache_tuple_def Let_def
  have ms: "make_list_seq (make_str_tuple as_tuple str xs) = map str xs"
    by (simp add: make_str_tuple_def)
  have dg: "(case (dict_get_seq (make_str_tuple as_tuple str xs) :: 'x error + 'e pyobj) of
               Inl e \<Rightarrow> Inl e | Inr v \<Rightarrow> Inr (Scalar v))
            = (if as_tuple then Inr (Scalar PyNone) else Inl TypeError_unhashable_list)"
    by (simp add: make_str_tuple_def)
  obtain cached c1
    where cg: "(case inc of None \<Rightarrow> cache_get (map str xs) k c | Some _ \<Rightarrow> ([], c)) = (cached, c1)"
    by (cases "case inc of None \<Rightarrow> cache_get (map str xs) k c | Some _ \<Rightarrow> ([], c)")
  show ?thesis
  proof (cases "remove_found (map fst cached) (map str xs) :: 'x error + string list")
    case (Inl e)
    with assms show ?thesis unfolding defs ms by (simp add: cg)
  next
    case (Inr ids')
    show ?thesis
    proof (cases "ids' = []")
      case True
      with Inr assms show ?thesis unfolding defs ms by (simp add: cg)
    next
      case False
      show ?thesis
      proof (cases "func \<lparr>data_ids = ids', meta_includes = map_option append_ids inc\<rparr>")
        case (Inl x)
        with Inr False assms show ?thesis unfolding defs ms by (simp add: cg)
      next
        case p: (Inr p)
        obtain results tc where "p = (results, tc)" by (cases p)
        with p Inr False assms show ?thesis unfolding defs ms dg
          by (simp add: cg split: if_splits)
      qed
    qed
  qed
qed

section \<open>The claims\<close>

subsection \<open>Order of the result and sequences that are not lists\<close>



text \<open>
  Claim C9, at the tuple \<^verbatim>\<open>("1", "2")\<close> with an empty cache and a remote source that
  holds both identities: the list \<^verbatim>\<open>["1", "2"]\<close> is answered by the list of the two
  entities, but the tuple, a sequence of the same two identities, is answered after the
  same fetch by the single value \<^verbatim>\<open>None\<close>, or by a \<^verbatim>\<open>TypeError\<close> when
  \<^verbatim>\<open>make_str\<close> hands the strings back as a list. With identity 1 in the cache, the
  tuple \<^verbatim>\<open>("1",)\<close> raises at line 204. Lines 201 and 236 test for a list, not for a
  sequence.
\<close>

theorem get_with_cache_tuple_not_a_sequence:
  "outcome (get_with_cache (\<lambda>s. s) example_remote (Listed [''1'', ''2'']) False ''molecule'' None
       empty_client) = Inr (Listed [Obj 10, Obj 20])
   \<and> outcome (get_with_cache_tuple True (\<lambda>s. s) example_remote [''1'', ''2''] False ''molecule'' None
       empty_client) = Inr (Scalar PyNone)
   \<and> outcome (get_with_cache_tuple False (\<lambda>s. s) example_remote [''1'', ''2''] False ''molecule'' None
       empty_client) = Inl TypeError_unhashable_list
   \<and> outcome (get_with_cache_tuple True (\<lambda>s. s) example_remote [''1''] False ''molecule'' None
       example_client) = Inl (KeyError_subscript_tuple [''1''])
   \<and> outcome (get_with_cache_tuple False (\<lambda>s. s) example_remote [''1''] False ''molecule'' None
       example_client) = Inl TypeError_unhashable_list"
  by (simp add: run_simps)

subsection \<open>Missing identities\<close>

text \<open>
  Claim C2 as stated fails when the fetch function reports an identity as absent by
  mapping it to \<^verbatim>\<open>None\<close>: the identity is then a key of \<^verbatim>\<open>results\<close>, line 230
  does not count it as missing, and with \<^verbatim>\<open>missing_ok\<close> false the call raises
  nothing and returns \<^verbatim>\<open>None\<close> in its slot.
\<close>

theorem get_with_cache_absent_value_not_raised:
  "absent_remote \<lparr>data_ids = [''8'', ''9''], meta_includes = None\<rparr>
     = Inr (\<lambda>i. if i \<in> set [''8'', ''9''] then Some PyNone else None, Map.empty)
   \<and> outcome (get_with_cache (\<lambda>s. s) absent_remote (Listed [''8'', ''9'']) False ''molecule'' None
        empty_client) = Inr (Listed [PyNone, PyNone])"
  by (simp add: run_simps)

text \<open>
  Claim C2, amended. When the fetch function returns and at least one requested identity
  is a key of neither the cached entries nor the fetched results, a call with
  \<^verbatim>\<open>missing_ok\<close> false raises the \<^verbatim>\<open>KeyError\<close> of line 233, whose message carries
  the set of all such identities; the same call with \<^verbatim>\<open>missing_ok\<close> true returns, and
  every slot of such an identity holds \<^verbatim>\<open>None\<close>, in place.
\<close>

theorem get_with_cache_missing:
  assumes f: "func (fetch_payload include entity_type c (requested str id0)) = Inr (results, to_cache)"
      and u: "unresolved results include entity_type c (requested str id0) \<noteq> {}"
  shows "outcome (get_with_cache str func id0 False entity_type include c)
           = Inl (KeyError_no_objects (unresolved results include entity_type c (requested str id0)))
       \<and> (\<exists>out. outcome (get_with_cache str func id0 True entity_type include c) = Inr out \<and>
            (case id0 of
               Scalar x \<Rightarrow> out = Scalar PyNone
             | Listed xs \<Rightarrow>
                 (\<exists>vs. out = Listed vs \<and> length vs = length xs \<and>
                    (\<forall>n < length xs.
                       str (xs ! n) \<in> unresolved results include entity_type c (requested str id0)
                       \<longrightarrow> vs ! n = PyNone))))"
proof -
  let ?ids = "requested str id0"
  let ?U = "unresolved results include entity_type c ?ids"
  note nf = unresolved_not_found [OF u]
  have raise: "outcome (get_with_cache str func id0 False entity_type include c)
      = Inl (KeyError_no_objects ?U)"
    using nf f u by (simp add: outcome_get_with_cache)
  have ret: "outcome (get_with_cache str func id0 True entity_type include c)
      = Inr (answers str func id0 entity_type include c)"
    using nf f by (simp add: outcome_get_with_cache)
  have shape: "(case id0 of
       Scalar x \<Rightarrow> answers str func id0 entity_type include c = Scalar PyNone
     | Listed xs \<Rightarrow>
         (\<exists>vs. answers str func id0 entity_type include c = Listed vs \<and> length vs = length xs \<and>
            (\<forall>n < length xs. str (xs ! n) \<in> ?U \<longrightarrow> vs ! n = PyNone)))"
  proof (cases id0)
    case (Scalar x)
    from u have "str x \<in> ?U"
      by (auto simp: unresolved_def Scalar requested_Scalar split: if_splits)
    from answer_unresolved [where func = func, OF f this] show ?thesis
      by (simp add: Scalar answers_def)
  next
    case (Listed xs)
    have "\<forall>n < length xs. str (xs ! n) \<in> ?U \<longrightarrow>
        answer func include entity_type c ?ids (str (xs ! n)) = PyNone"
      using answer_unresolved [where func = func, OF f] by blast
    then show ?thesis by (simp add: Listed answers_def)
  qed
  from raise ret shape show ?thesis by simp
qed

theorem get_with_cache_missing_witness:
  "example_remote (fetch_payload None ''molecule'' example_client
       (requested (\<lambda>s. s) (Listed [''1'', ''8'', ''3'', ''9''])))
     = Inr ([''3'' \<mapsto> Obj 30], [''3'' \<mapsto> Obj 30])
   \<and> unresolved [''3'' \<mapsto> Obj 30] None ''molecule'' example_client
        (requested (\<lambda>s. s) (Listed [''1'', ''8'', ''3'', ''9''])) = {''8'', ''9''}
   \<and> outcome (get_with_cache (\<lambda>s. s) example_remote (Listed [''1'', ''8'', ''3'', ''9'']) False
        ''molecule'' None example_client) = Inl (KeyError_no_objects {''8'', ''9''})
   \<and> outcome (get_with_cache (\<lambda>s. s) example_remote (Listed [''1'', ''8'', ''3'', ''9'']) True
        ''molecule'' None example_client) = Inr (Listed [Obj 10, PyNone, Obj 30, PyNone])"
proof -
  let ?ids = "requested (\<lambda>s. s) (Listed [''1'', ''8'', ''3'', ''9''])"
  have f: "example_remote (fetch_payload None ''molecule'' example_client ?ids)
      = Inr ([''3'' \<mapsto> Obj 30], [''3'' \<mapsto> Obj 30])"
    by (simp add: example_remote_def fetch_payload_def not_found_def served_def requested_Listed
        example_client_def Let_def)
  have u: "unresolved [''3'' \<mapsto> Obj (30::nat)] None ''molecule'' example_client ?ids = {''8'', ''9''}"
    by (auto simp: unresolved_def served_def requested_Listed example_client_def)
  then have ne: "unresolved [''3'' \<mapsto> Obj (30::nat)] None ''molecule'' example_client ?ids \<noteq> {}"
    by simp
  have t: "outcome (get_with_cache (\<lambda>s. s) example_remote (Listed [''1'', ''8'', ''3'', ''9'']) True
        ''molecule'' None example_client) = Inr (Listed [Obj 10, PyNone, Obj 30, PyNone])"
    by (simp add: run_simps)
  from get_with_cache_missing [where func = example_remote, OF f ne] f u t show ?thesis by simp
qed

subsection \<open>Remote fetches\<close>

text \<open>
  Claim C8. Every call invokes the fetch function at most once, and exactly once, with
  the payload of the identities left after the cache pass, when some requested identity
  is not served from the cache. When the fetch function raises, the call raises that
  same error: it is neither caught nor changed, and no second fetch is made.
\<close>

theorem get_with_cache_fetch_once:
  "length (fetches (calls (client_after (get_with_cache str func id0 missing_ok entity_type include c))))
     \<le> length (fetches (calls c)) + 1
   \<and> ((\<exists>i \<in> set (requested str id0). served include entity_type c i = None) \<longrightarrow>
        fetches (calls (client_after (get_with_cache str func id0 missing_ok entity_type include c)))
          = fetches (calls c) @ [fetch_payload include entity_type c (requested str id0)])
   \<and> (\<forall>p x. fetches (calls (client_after (get_with_cache str func id0 missing_ok entity_type include c)))
                = fetches (calls c) @ [p] \<and> func p = Inl x
              \<longrightarrow> outcome (get_with_cache str func id0 missing_ok entity_type include c)
                    = Inl (FetchRaised x))"
proof (intro conjI allI impI)
  show "length (fetches (calls (client_after (get_with_cache str func id0 missing_ok entity_type include c))))
     \<le> length (fetches (calls c)) + 1"
    by (simp add: fetches_get_with_cache)
next
  assume "\<exists>i \<in> set (requested str id0). served include entity_type c i = None"
  then have "not_found include entity_type c (requested str id0) \<noteq> []"
    by (auto simp: not_found_empty_iff)
  then show "fetches (calls (client_after (get_with_cache str func id0 missing_ok entity_type include c)))
          = fetches (calls c) @ [fetch_payload include entity_type c (requested str id0)]"
    by (simp add: fetches_get_with_cache)
next
  fix p x
  assume a: "fetches (calls (client_after (get_with_cache str func id0 missing_ok entity_type include c)))
                = fetches (calls c) @ [p] \<and> func p = Inl x"
  then have nf: "not_found include entity_type c (requested str id0) \<noteq> []"
    and p: "p = fetch_payload include entity_type c (requested str id0)"
    by (auto simp: fetches_get_with_cache split: if_splits)
  with a show "outcome (get_with_cache str func id0 missing_ok entity_type include c) = Inl (FetchRaised x)"
    by (simp add: outcome_get_with_cache)
qed

theorem get_with_cache_fetch_once_witness:
  "served None ''molecule'' example_client ''2'' = None
   \<and> failing_remote \<lparr>data_ids = [''2''], meta_includes = None\<rparr> = Inl ''connection refused''
   \<and> fetches (calls (client_after (get_with_cache (\<lambda>s. s) failing_remote (Listed [''1'', ''2'']) False
        ''molecule'' None example_client))) = [\<lparr>data_ids = [''2''], meta_includes = None\<rparr>]
   \<and> outcome (get_with_cache (\<lambda>s. s) failing_remote (Listed [''1'', ''2'']) False ''molecule'' None
        example_client) = Inl (FetchRaised ''connection refused'')"
proof -
  have s: "served None ''molecule'' example_client ''2'' = None"
    by (simp add: served_def example_client_def)
  then have ex: "\<exists>i \<in> set (requested (\<lambda>s. s) (Listed [''1'', ''2''])).
      served None ''molecule'' example_client i = None"
    by (simp add: requested_Listed)
  have pl: "fetch_payload None ''molecule'' example_client (requested (\<lambda>s. s) (Listed [''1'', ''2'']))
      = \<lparr>data_ids = [''2''], meta_includes = None\<rparr>"
    by (simp add: fetch_payload_def not_found_def served_def requested_Listed example_client_def)
  have c0: "fetches (calls example_client) = []" by (simp add: example_client_def)
  have fr: "failing_remote \<lparr>data_ids = [''2''], meta_includes = None\<rparr> = Inl ''connection refused''"
    by (simp add: failing_remote_def)
  note t = get_with_cache_fetch_once [of "\<lambda>s. s" failing_remote "Listed [''1'', ''2'']" False
      "''molecule''" None example_client]
  from t ex have f: "fetches (calls (client_after (get_with_cache (\<lambda>s. s) failing_remote
      (Listed [''1'', ''2'']) False ''molecule'' None example_client)))
      = [\<lparr>data_ids = [''2''], meta_includes = None\<rparr>]"
    by (simp add: pl c0)
  from t f fr have "outcome (get_with_cache (\<lambda>s. s) failing_remote (Listed [''1'', ''2'']) False
      ''molecule'' None example_client) = Inl (FetchRaised ''connection refused'')"
    by (simp add: c0)
  with s fr f show ?thesis by simp
qed

text \<open>
  Claim C3, at the request \<^verbatim>\<open>["1", "1"]\<close> with no field filter and a cache that
  holds molecule 1: every requested identity is in the cache, and yet the call invokes
  the fetch function, with the payload \<^verbatim>\<open>["1"]\<close>. Line 197 removes one occurrence
  of each cached identity, so the second occurrence stays in \<^verbatim>\<open>ids\<close>.
\<close>

theorem get_with_cache_full_hit_duplicate_fetches:
  "cache_store example_client (''molecule'', ''1'') = Some (Obj 10)
   \<and> fetches (calls example_client) = []
   \<and> fetches (calls (client_after (get_with_cache (\<lambda>s. s) example_remote (Listed [''1'', ''1'']) False
        ''molecule'' None example_client))) = [\<lparr>data_ids = [''1''], meta_includes = None\<rparr>]"
  by (simp add: run_simps)

subsection \<open>The field filter\<close>

text \<open>
  Claim C4 as stated fails at the empty request: with a field filter and the request
  \<^verbatim>\<open>[]\<close> the fetch function is not invoked, because line 200 returns first.
\<close>

theorem get_with_cache_filter_empty_no_fetch:
  "fetches (calls (client_after (get_with_cache (\<lambda>s. s) example_remote (Listed []) False ''molecule''
      (Some [''name'']) example_client))) = []"
  by (simp add: run_simps)

text \<open>
  Claim C4, amended. With a field filter the cache is bypassed: the call makes no call to
  the cache, neither a get nor a put, and leaves the store as it was; and whenever at
  least one identity is requested it invokes the fetch function exactly once, with all
  requested identities in the payload, whether they are in the cache or not. For the
  empty request it makes no call at all.
\<close>

theorem get_with_cache_filter_bypass:
  "calls (client_after (get_with_cache str func id0 missing_ok entity_type (Some inc) c))
     = calls c @
       (if requested str id0 = [] then []
        else [RemoteFetch \<lparr>data_ids = requested str id0, meta_includes = Some (append_ids inc)\<rparr>])
   \<and> cache_store (client_after (get_with_cache str func id0 missing_ok entity_type (Some inc) c))
     = cache_store c"
  by (simp add: calls_get_with_cache store_get_with_cache not_found_filter fetch_payload_filter
      split: sum.splits)

theorem get_with_cache_filter_bypass_witness:
  "cache_store example_client (''molecule'', ''1'') = Some (Obj 10)
   \<and> calls (client_after (get_with_cache (\<lambda>s. s) example_remote (Scalar ''1'') False ''molecule''
        (Some [''name'']) example_client))
     = [RemoteFetch \<lparr>data_ids = [''1''], meta_includes = Some [''name'', ''ids'']\<rparr>]
   \<and> cache_store (client_after (get_with_cache (\<lambda>s. s) example_remote (Scalar ''1'') False ''molecule''
        (Some [''name'']) example_client)) = cache_store example_client"
  using get_with_cache_filter_bypass [of "\<lambda>s. s" example_remote "Scalar ''1''" False "''molecule''"
      "[''name'']" example_client]
  by (simp add: requested_Scalar append_ids_def example_client_def)

text \<open>
  Claim C10 as stated fails at the empty request: with the field filter
  \<^verbatim>\<open>["name"]\<close>, which lacks \<^verbatim>\<open>"ids"\<close>, and the request \<^verbatim>\<open>[]\<close> the call returns at
  line 202 and the caller's list is unchanged.
\<close>

theorem get_with_cache_no_append_on_empty:
  "''ids'' \<notin> set [''name'']
   \<and> include_arg (get_with_cache (\<lambda>s. s) example_remote (Listed []) False ''molecule'' (Some [''name''])
        empty_client) = Some [''name'']"
  by (simp add: run_simps)

text \<open>
  Claim C10, amended. When a call requests at least one identity and is given a field
  filter that does not contain \<^verbatim>\<open>"ids"\<close>, it appends \<^verbatim>\<open>"ids"\<close> to the caller's
  list before it builds the payload: the payload carries the extended list, and the
  caller's list stays extended after the call, whether the call returns or raises.
\<close>

theorem get_with_cache_appends_ids:
  assumes "''ids'' \<notin> set inc" and "requested str id0 \<noteq> []"
  shows "include_arg (get_with_cache str func id0 missing_ok entity_type (Some inc) c)
           = Some (inc @ [''ids''])
       \<and> fetches (calls (client_after (get_with_cache str func id0 missing_ok entity_type (Some inc) c)))
           = fetches (calls c) @
             [\<lparr>data_ids = requested str id0, meta_includes = Some (inc @ [''ids''])\<rparr>]"
  using assms
  by (simp add: include_get_with_cache fetches_get_with_cache not_found_filter fetch_payload_filter
      append_ids_def)

theorem get_with_cache_appends_ids_witness:
  "''ids'' \<notin> set [''name''] \<and> requested (\<lambda>s. s) (Scalar ''7'') \<noteq> []
   \<and> include_arg (get_with_cache (\<lambda>s. s) failing_remote (Scalar ''7'') False ''molecule''
        (Some [''name'']) empty_client) = Some [''name'', ''ids'']
   \<and> fetches (calls (client_after (get_with_cache (\<lambda>s. s) failing_remote (Scalar ''7'') False
        ''molecule'' (Some [''name'']) empty_client)))
       = [\<lparr>data_ids = [''7''], meta_includes = Some [''name'', ''ids'']\<rparr>]"
proof -
  have h1: "''ids'' \<notin> set [''name'']" by simp
  have h2: "requested (\<lambda>s. s) (Scalar ''7'') \<noteq> []" by (simp add: requested_Scalar)
  from get_with_cache_appends_ids [OF h1 h2, of failing_remote False "''molecule''" empty_client] h1 h2
  show ?thesis by (simp add: requested_Scalar empty_client_def)
qed

subsection \<open>The empty request\<close>

text \<open>
  Claim C7 as stated fails when no field filter is given: for the request \<^verbatim>\<open>[]\<close>
  line 192 calls the cache's \<^verbatim>\<open>get\<close>, with the empty list of identities.
\<close>

theorem get_with_cache_empty_consults_cache:
  "calls empty_client = []
   \<and> calls (client_after (get_with_cache (\<lambda>s. s) example_remote (Listed []) False ''molecule'' None
        empty_client)) = [CacheGet [] ''molecule'']"
  by (simp add: run_simps)

text \<open>
  Claim C7, amended. For the request \<^verbatim>\<open>[]\<close> the call returns the empty list, does
  not invoke the fetch function, leaves the store and the caller's field filter as they
  were; when no field filter is given it calls the cache's \<^verbatim>\<open>get\<close> once, with the
  empty list of identities, and with a field filter it makes no call to the cache.
\<close>

theorem get_with_cache_empty:
  "outcome (get_with_cache str func (Listed []) missing_ok entity_type include c) = Inr (Listed [])
   \<and> calls (client_after (get_with_cache str func (Listed []) missing_ok entity_type include c))
     = calls c @ (case include of None \<Rightarrow> [CacheGet [] entity_type] | Some _ \<Rightarrow> [])
   \<and> cache_store (client_after (get_with_cache str func (Listed []) missing_ok entity_type include c))
     = cache_store c
   \<and> include_arg (get_with_cache str func (Listed []) missing_ok entity_type include c) = include"
proof -
  have nf: "not_found include entity_type c (requested str (Listed [])) = []"
    by (simp add: not_found_def requested_Listed)
  show ?thesis
    by (simp add: outcome_get_with_cache calls_get_with_cache store_get_with_cache
        include_get_with_cache nf answers_def) (simp add: requested_Listed split: option.splits)
qed

theorem get_with_cache_empty_witness:
  "outcome (get_with_cache (\<lambda>s. s) failing_remote (Listed []) False ''molecule'' (Some [''name''])
      example_client) = Inr (Listed [])
   \<and> calls (client_after (get_with_cache (\<lambda>s. s) failing_remote (Listed []) False ''molecule''
        (Some [''name'']) example_client)) = []
   \<and> fetches (calls (client_after (get_with_cache (\<lambda>s. s) failing_remote (Listed []) False ''molecule''
        None example_client))) = []"
  using get_with_cache_empty [of "\<lambda>s. s" failing_remote False "''molecule''" "Some [''name'']" example_client]
    get_with_cache_empty [of "\<lambda>s. s" failing_remote False "''molecule''" None example_client]
  by (simp add: example_client_def)

subsection \<open>Duplicate identities\<close>

text \<open>
  Claim C5 as stated fails: for the request \<^verbatim>\<open>["1", "1", "2"]\<close> and an empty cache
  the one fetch lists identity 1 twice in its payload. Nothing in the method removes
  duplicates from the list it sends.
\<close>

theorem get_with_cache_duplicate_payload:
  "fetches (calls (client_after (get_with_cache (\<lambda>s. s) example_remote (Listed [''1'', ''1'', ''2''])
      False ''molecule'' None empty_client)))
     = [\<lparr>data_ids = [''1'', ''1'', ''2''], meta_includes = None\<rparr>]"
  by (simp add: run_simps)

text \<open>
  Claim C5, amended. For every request list that contains a duplicate identity, the call
  makes at most one fetch, and exactly one when some requested identity is not served
  from the cache; the payload of that fetch lists the identities not served from the
  cache once per occurrence in the request, in the order of the request; and a call that
  returns hands back one slot per occurrence, each slot holding the value of the identity
  at its position, so that equal identities have equal slots.
\<close>

theorem get_with_cache_duplicates:
  assumes "\<not> distinct (map str xs)"
  shows "length (fetches (calls (client_after
             (get_with_cache str func (Listed xs) missing_ok entity_type include c))))
           \<le> length (fetches (calls c)) + 1
       \<and> ((\<exists>i \<in> set (map str xs). served include entity_type c i = None) \<longrightarrow>
            (\<exists>p. fetches (calls (client_after
                      (get_with_cache str func (Listed xs) missing_ok entity_type include c)))
                    = fetches (calls c) @ [p]
                \<and> filter (\<lambda>i. served include entity_type c i = None) (data_ids p)
                    = filter (\<lambda>i. served include entity_type c i = None) (map str xs)))
       \<and> (\<forall>out. outcome (get_with_cache str func (Listed xs) missing_ok entity_type include c) = Inr out
            \<longrightarrow> (\<exists>vs. out = Listed vs \<and> length vs = length xs \<and>
                   (\<forall>n < length xs.
                      vs ! n = answer func include entity_type c (map str xs) (str (xs ! n))) \<and>
                   (\<forall>m < length xs. \<forall>n < length xs. str (xs ! m) = str (xs ! n) \<longrightarrow> vs ! m = vs ! n)))"
proof (intro conjI allI impI)
  show "length (fetches (calls (client_after
             (get_with_cache str func (Listed xs) missing_ok entity_type include c))))
           \<le> length (fetches (calls c)) + 1"
    by (simp add: fetches_get_with_cache)
next
  assume "\<exists>i \<in> set (map str xs). served include entity_type c i = None"
  then have nf: "not_found include entity_type c (map str xs) \<noteq> []"
    by (auto simp: not_found_empty_iff)
  let ?p = "fetch_payload include entity_type c (map str xs)"
  have "fetches (calls (client_after
            (get_with_cache str func (Listed xs) missing_ok entity_type include c)))
          = fetches (calls c) @ [?p]"
    using nf by (simp add: fetches_get_with_cache requested_Listed)
  moreover have "filter (\<lambda>i. served include entity_type c i = None) (data_ids ?p)
      = filter (\<lambda>i. served include entity_type c i = None) (map str xs)"
    by (simp add: fetch_payload_def filter_not_found)
  ultimately show "\<exists>p. fetches (calls (client_after
                      (get_with_cache str func (Listed xs) missing_ok entity_type include c)))
                    = fetches (calls c) @ [p]
                \<and> filter (\<lambda>i. served include entity_type c i = None) (data_ids p)
                    = filter (\<lambda>i. served include entity_type c i = None) (map str xs)"
    by blast
next
  fix out
  assume "outcome (get_with_cache str func (Listed xs) missing_ok entity_type include c) = Inr out"
  then have "out = answers str func (Listed xs) entity_type include c"
    by (auto simp: outcome_get_with_cache split: if_splits sum.splits)
  then have "out = Listed (map (\<lambda>x. answer func include entity_type c (map str xs) (str x)) xs)"
    by (simp add: answers_def requested_Listed)
  then show "\<exists>vs. out = Listed vs \<and> length vs = length xs \<and>
                   (\<forall>n < length xs.
                      vs ! n = answer func include entity_type c (map str xs) (str (xs ! n))) \<and>
                   (\<forall>m < length xs. \<forall>n < length xs. str (xs ! m) = str (xs ! n) \<longrightarrow> vs ! m = vs ! n)"
    by simp
qed

theorem get_with_cache_duplicates_witness:
  "\<not> distinct (map (\<lambda>s. s) [''2'', ''1'', ''2''])
   \<and> served None ''molecule'' example_client ''2'' = None
   \<and> fetches (calls (client_after (get_with_cache (\<lambda>s. s) example_remote (Listed [''2'', ''1'', ''2''])
        False ''molecule'' None example_client)))
       = [\<lparr>data_ids = [''2'', ''2''], meta_includes = None\<rparr>]
   \<and> outcome (get_with_cache (\<lambda>s. s) example_remote (Listed [''2'', ''1'', ''2'']) False ''molecule''
        None example_client) = Inr (Listed [Obj 20, Obj 10, Obj 20])"
proof -
  have h: "\<not> distinct (map (\<lambda>s. s) [''2'', ''1'', ''2''])" by simp
  have s: "served None ''molecule'' example_client ''2'' = None"
    by (simp add: served_def example_client_def)
  have o: "outcome (get_with_cache (\<lambda>s. s) example_remote (Listed [''2'', ''1'', ''2'']) False ''molecule''
        None example_client) = Inr (Listed [Obj 20, Obj 10, Obj 20])"
    by (simp add: run_simps)
  have f: "fetches (calls (client_after (get_with_cache (\<lambda>s. s) example_remote (Listed [''2'', ''1'', ''2''])
        False ''molecule'' None example_client)))
       = [\<lparr>data_ids = [''2'', ''2''], meta_includes = None\<rparr>]"
    by (simp add: run_simps)
  from get_with_cache_duplicates [OF h, of example_remote False "''molecule''" None example_client]
    h s o f show ?thesis by simp
qed

subsection \<open>Calling twice\<close>

text \<open>
  Claim C6 as stated fails: when an identity is missing at the remote source and
  \<^verbatim>\<open>missing_ok\<close> is true, the second of two equal calls fetches again, as absence is
  never written to the cache. Two fetches are made in total.
\<close>

theorem get_with_cache_twice_refetches_missing:
  "fetches (calls (client_after
      (get_with_cache (\<lambda>s. s) example_remote (Listed [''1'', ''9'']) True ''molecule'' None
        (client_after (get_with_cache (\<lambda>s. s) example_remote (Listed [''1'', ''9'']) True ''molecule''
           None empty_client)))))
     = [\<lparr>data_ids = [''1'', ''9''], meta_includes = None\<rparr>, \<lparr>data_ids = [''9''], meta_includes = None\<rparr>]"
  by (simp add: run_simps)

text \<open>
  Claim C6, amended. Take two calls in a row with the same request of pairwise distinct
  identities, the same entity type and no field filter, where some requested identity
  is not in the cache beforehand and the fetch function returns a \<^verbatim>\<open>to_cache\<close>
  dictionary with an entry for every requested identity that the cache lacked. Then
  exactly one fetch is made in total: the first call makes it and puts \<^verbatim>\<open>to_cache\<close>
  into the store, and the second call makes none and returns the values of the store.
\<close>

theorem get_with_cache_twice:
  assumes d: "distinct (requested str id0)"
      and n: "\<exists>i \<in> set (requested str id0). cache_store c (entity_type, i) = None"
      and f: "func (fetch_payload None entity_type c (requested str id0)) = Inr (results, to_cache)"
      and t: "\<forall>i \<in> set (requested str id0). cache_store c (entity_type, i) = None \<longrightarrow> to_cache i \<noteq> None"
  shows "(let r1 = get_with_cache str func id0 missing_ok entity_type None c;
              r2 = get_with_cache str func id0 missing_ok entity_type None (client_after r1)
          in fetches (calls (client_after r2))
               = fetches (calls c) @ [fetch_payload None entity_type c (requested str id0)]
           \<and> cache_store (client_after r1) = cache_store (cache_put to_cache entity_type c)
           \<and> fetches (calls (client_after r2)) = fetches (calls (client_after r1))
           \<and> outcome r2
               = Inr (map_request
                        (\<lambda>x. dict_get (served None entity_type (client_after r1)) (str x)) id0))"
proof -
  let ?ids = "requested str id0"
  let ?r1 = "get_with_cache str func id0 missing_ok entity_type None c"
  let ?c1 = "client_after ?r1"
  let ?r2 = "get_with_cache str func id0 missing_ok entity_type None ?c1"
  from n have nf1: "not_found None entity_type c ?ids \<noteq> []"
    by (auto simp: not_found_empty_iff served_def)
  have store1: "cache_store ?c1 = cache_store (cache_put to_cache entity_type c)"
    using nf1 f by (simp add: store_get_with_cache)
  have f1: "fetches (calls ?c1) = fetches (calls c) @ [fetch_payload None entity_type c ?ids]"
    using nf1 by (simp add: fetches_get_with_cache)
  have all: "\<forall>i \<in> set ?ids. served None entity_type ?c1 i \<noteq> None"
  proof
    fix i assume i: "i \<in> set ?ids"
    show "served None entity_type ?c1 i \<noteq> None"
    proof (cases "cache_store c (entity_type, i)")
      case None
      with t i obtain v where "to_cache i = Some v" by auto
      then show ?thesis by (simp add: served_def store1 store_cache_put)
    next
      case (Some v)
      then show ?thesis by (simp add: served_def store1 store_cache_put split: option.splits)
    qed
  qed
  with d have nf2: "not_found None entity_type ?c1 ?ids = []"
    by (simp add: not_found_empty_iff)
  have f2: "fetches (calls (client_after ?r2)) = fetches (calls ?c1)"
    using nf2 by (simp add: fetches_get_with_cache)
  have o2: "outcome ?r2
      = Inr (map_request (\<lambda>x. dict_get (served None entity_type ?c1) (str x)) id0)"
    using nf2 answers_served [OF all, of func] by (simp add: outcome_get_with_cache)
  from f1 f2 store1 o2 show ?thesis by (simp add: Let_def)
qed

theorem get_with_cache_twice_witness:
  "distinct (requested (\<lambda>s. s) (Listed [''1'', ''2'', ''3'']))
   \<and> cache_store example_client (''molecule'', ''2'') = None
   \<and> example_remote (fetch_payload None ''molecule'' example_client
        (requested (\<lambda>s. s) (Listed [''1'', ''2'', ''3''])))
       = Inr ([''2'' \<mapsto> Obj 20, ''3'' \<mapsto> Obj 30], [''2'' \<mapsto> Obj 20, ''3'' \<mapsto> Obj 30])
   \<and> fetches (calls (client_after
        (get_with_cache (\<lambda>s. s) example_remote (Listed [''1'', ''2'', ''3'']) False ''molecule'' None
          (client_after (get_with_cache (\<lambda>s. s) example_remote (Listed [''1'', ''2'', ''3'']) False
             ''molecule'' None example_client)))))
       = [\<lparr>data_ids = [''2'', ''3''], meta_includes = None\<rparr>]
   \<and> outcome (get_with_cache (\<lambda>s. s) example_remote (Listed [''1'', ''2'', ''3'']) False ''molecule'' None
        (client_after (get_with_cache (\<lambda>s. s) example_remote (Listed [''1'', ''2'', ''3'']) False
           ''molecule'' None example_client)))
       = Inr (Listed [Obj 10, Obj 20, Obj 30])"
proof -
  let ?ids = "requested (\<lambda>s. s) (Listed [''1'', ''2'', ''3''])"
  let ?tc = "[''2'' \<mapsto> Obj (20::nat), ''3'' \<mapsto> Obj 30]"
  have d: "distinct ?ids" by (simp add: requested_Listed)
  have s: "cache_store example_client (''molecule'', ''2'') = None" by (simp add: example_client_def)
  then have n: "\<exists>i \<in> set ?ids. cache_store example_client (''molecule'', i) = None"
    by (simp add: requested_Listed)
  have pl: "fetch_payload None ''molecule'' example_client ?ids
      = \<lparr>data_ids = [''2'', ''3''], meta_includes = None\<rparr>"
    by (simp add: fetch_payload_def not_found_def served_def requested_Listed example_client_def)
  have f: "example_remote (fetch_payload None ''molecule'' example_client ?ids) = Inr (?tc, ?tc)"
    by (simp add: pl example_remote_def Let_def fun_eq_iff restrict_map_def)
  have t: "\<forall>i \<in> set ?ids. cache_store example_client (''molecule'', i) = None \<longrightarrow> ?tc i \<noteq> None"
    by (simp add: requested_Listed example_client_def)
  have c0: "fetches (calls example_client) = []" by (simp add: example_client_def)
  have o: "outcome (get_with_cache (\<lambda>s. s) example_remote (Listed [''1'', ''2'', ''3'']) False ''molecule'' None
        (client_after (get_with_cache (\<lambda>s. s) example_remote (Listed [''1'', ''2'', ''3'']) False
           ''molecule'' None example_client)))
       = Inr (Listed [Obj 10, Obj 20, Obj 30])"
    by (simp add: run_simps)
  from get_with_cache_twice [where func = example_remote and missing_ok = False, OF d n f t]
    d s f o show ?thesis
    by (simp add: Let_def pl c0)
qed

end
